theory Spec2Isabelle
  imports Main
begin

section \<open>Values exchanged with the collaborators\<close>

text \<open>
  A value caught by \<^verbatim>\<open>catch (error)\<close>. The source only asks
  \<^verbatim>\<open>error instanceof Error\<close> and, if so, reads \<^verbatim>\<open>error.message\<close>.
\<close>

datatype js_thrown = Error_instance string | Non_error

text \<open>
  What a promise of a collaborator does in the end: it never settles, or it settles at
  some instant (counted from the call that made it) with a value or with a reason.
\<close>

datatype 'a promise = Pending | Fulfilled nat 'a | Rejected nat js_thrown

text \<open>\<^verbatim>\<open>p.then(f)\<close> with a callback that does not throw.\<close>

fun then_promise :: "('a \<Rightarrow> 'b) \<Rightarrow> 'a promise \<Rightarrow> 'b promise" where
  "then_promise f Pending = Pending"
| "then_promise f (Fulfilled t v) = Fulfilled t (f v)"
| "then_promise f (Rejected t e) = Rejected t e"

text \<open>
  \<^verbatim>\<open>Promise.all\<close>: rejected as soon as one input is rejected, with the reason of the
  input rejected first in time (the earlier list position among equal instants);
  fulfilled with the values in list order once every input is fulfilled; pending otherwise.
\<close>

fun earliest_rejection :: "'a promise list \<Rightarrow> (nat \<times> js_thrown) option" where
  "earliest_rejection [] = None"
| "earliest_rejection (Rejected t e # ps) =
     (case earliest_rejection ps of
        None \<Rightarrow> Some (t, e)
      | Some (t', e') \<Rightarrow> if t' < t then Some (t', e') else Some (t, e))"
| "earliest_rejection (p # ps) = earliest_rejection ps"

fun all_fulfilled :: "'a promise list \<Rightarrow> (nat \<times> 'a list) option" where
  "all_fulfilled [] = Some (0, [])"
| "all_fulfilled (Fulfilled t v # ps) =
     (case all_fulfilled ps of
        None \<Rightarrow> None
      | Some (t', vs) \<Rightarrow> Some (max t t', v # vs))"
| "all_fulfilled (p # ps) = None"

definition promise_all :: "'a promise list \<Rightarrow> 'a list promise" where
  "promise_all ps =
     (case earliest_rejection ps of
        Some (t, e) \<Rightarrow> Rejected t e
      | None \<Rightarrow>
          (case all_fulfilled ps of
             Some (t, vs) \<Rightarrow> Fulfilled t vs
           | None \<Rightarrow> Pending))"

text \<open>The value a promise is fulfilled with, if it is.\<close>

fun settled_value :: "'a promise \<Rightarrow> 'a option" where
  "settled_value (Fulfilled t v) = Some v"
| "settled_value (Rejected t e) = None"
| "settled_value Pending = None"

text \<open>
  \<^verbatim>\<open>String.prototype.trim\<close> on a string of code units below 256: the white space and
  line terminators of that range are TAB, LF, VT, FF, CR, SP and NBSP.
\<close>

definition is_js_whitespace :: "char \<Rightarrow> bool" where
  "is_js_whitespace c = ((of_char c :: nat) \<in> {9, 10, 11, 12, 13, 32, 160})"

definition trim :: "string \<Rightarrow> string" where
  "trim s = rev (dropWhile is_js_whitespace (rev (dropWhile is_js_whitespace s)))"

text \<open>The result of \<^verbatim>\<open>validateFileForUpload\<close>: \<^verbatim>\<open>{ valid, error? }\<close>.\<close>

record validation =
  valid :: bool
  error :: "string option"

text \<open>Truthiness of an optional string: defined and not empty.\<close>

definition truthy :: "string option \<Rightarrow> bool" where
  "truthy v = (case v of None \<Rightarrow> False | Some m \<Rightarrow> m \<noteq> [])"

text \<open>The argument of \<^verbatim>\<open>toast\<close>.\<close>

record toast =
  title :: string
  description :: string
  variant :: string
  duration :: nat

text \<open>The result of \<^verbatim>\<open>uploadToS3\<close>, of which the source reads \<^verbatim>\<open>url\<close>.\<close>

record s3_upload =
  url :: string

text \<open>The argument of \<^verbatim>\<open>onGenerate\<close>: \<^verbatim>\<open>{ prompt, characterUrls? }\<close>.\<close>

datatype generate_data =
  Generate_data (data_prompt: string) (characterUrls: "string list option")

section \<open>The composer: \<^verbatim>\<open>GeneratePageModal\<close>\<close>

text \<open>
  The collaborators the component calls. A file handle \<open>'f\<close> is the identity of a
  \<^verbatim>\<open>File\<close> object; what a collaborator answers for it is a parameter.
\<close>

record 'f collaborators =
  validateFileForUpload :: "'f \<Rightarrow> bool \<Rightarrow> validation"
  generateFilePreview :: "'f \<Rightarrow> string promise"
  uploadToS3 :: "'f \<Rightarrow> s3_upload promise"
  onGenerate :: "generate_data \<Rightarrow> unit promise"

text \<open>The props the modelled code reads.\<close>

record props =
  isOpen :: bool
  isRedrawMode :: bool
  existingPrompt :: string

text \<open>
  The component's \<^verbatim>\<open>useState\<close> cells, the value of the file input behind
  \<^verbatim>\<open>fileInputRef\<close> (\<open>None\<close> when \<^verbatim>\<open>fileInputRef.current\<close> is null), and what the
  component has done to the outside so far: the toasts shown, the values logged by
  \<^verbatim>\<open>console.error\<close>, the files handed to \<^verbatim>\<open>uploadToS3\<close> and the calls of
  \<^verbatim>\<open>onGenerate\<close>, each in order.
\<close>

record 'f modal =
  prompt :: string
  uploadedFiles :: "'f list"
  previews :: "string list"
  showPreview :: "nat option"
  isGenerating :: bool
  fileInputValue :: "string option"
  toasts :: "toast list"
  consoleErrors :: "js_thrown list"
  uploads :: "'f list"
  generated :: "generate_data list"

text \<open>The \<^verbatim>\<open>useState\<close> defaults, with nothing done yet.\<close>

definition initial_modal :: "'f modal" where
  "initial_modal =
     \<lparr>prompt = [], uploadedFiles = [], previews = [], showPreview = None,
      isGenerating = False, fileInputValue = Some [], toasts = [], consoleErrors = [],
      uploads = [], generated = []\<rparr>"

text \<open>The body of the effect \<^verbatim>\<open>// Reset form when modal opens\<close>.\<close>

definition reset_on_open :: "props \<Rightarrow> 'f modal \<Rightarrow> 'f modal" where
  "reset_on_open p s =
     (if isOpen p
      then s\<lparr>prompt := (if isRedrawMode p then existingPrompt p else []),
             uploadedFiles := [], previews := [], showPreview := None,
             isGenerating := False\<rparr>
      else s)"

subsection \<open>\<^verbatim>\<open>handleFiles\<close>\<close>

text \<open>The toast of the \<^verbatim>\<open>forEach\<close> over the validation results, for one result.\<close>

definition invalid_file_toast :: "validation \<Rightarrow> toast list" where
  "invalid_file_toast v =
     (if \<not> valid v \<and> truthy (error v)
      then [\<lparr>title = ''Invalid file'', description = the (error v),
             variant = ''destructive'', duration = 4000\<rparr>]
      else [])"

text \<open>
  \<^verbatim>\<open>handleFiles\<close> up to its \<^verbatim>\<open>await\<close>: the state it leaves, and the list
  \<^verbatim>\<open>totalFiles\<close> whose previews it waits for (\<open>None\<close> when it returned early).
  \<^verbatim>\<open>uploadedFiles\<close> is the value the handler's render saw, which is the current one
  when the event fires.
\<close>

definition handleFiles_sync ::
    "'f collaborators \<Rightarrow> 'f list option \<Rightarrow> 'f modal \<Rightarrow> 'f modal \<times> 'f list option" where
  "handleFiles_sync env newFiles s =
     (case newFiles of
        None \<Rightarrow> (s, None)
      | Some filesArray \<Rightarrow>
          (let validationResults =
                 map (\<lambda>file. (file, validateFileForUpload env file True)) filesArray;
               s1 = s\<lparr>toasts := toasts s @
                      concat (map (\<lambda>(file, v). invalid_file_toast v) validationResults)\<rparr>;
               validFiles = map fst (filter (\<lambda>(file, v). valid v) validationResults)
           in if length validFiles = 0 then (s1, None)
              else (let totalFiles = take 2 (uploadedFiles s @ validFiles)
                    in (s1\<lparr>uploadedFiles := totalFiles\<rparr>, Some totalFiles))))"

text \<open>
  \<^verbatim>\<open>handleFiles\<close> from its \<^verbatim>\<open>await\<close> on, run on the state of that later moment:
  \<^verbatim>\<open>setPreviews\<close> when every preview is there; when one is rejected the function's own
  promise is rejected and nothing is set; nothing either while one is pending.
\<close>

definition handleFiles_resume :: "'f collaborators \<Rightarrow> 'f list \<Rightarrow> 'f modal \<Rightarrow> 'f modal" where
  "handleFiles_resume env totalFiles s =
     (case promise_all (map (generateFilePreview env) totalFiles) of
        Fulfilled t newPreviews \<Rightarrow> s\<lparr>previews := newPreviews\<rparr>
      | Rejected t e \<Rightarrow> s
      | Pending \<Rightarrow> s)"

text \<open>\<^verbatim>\<open>handleFiles\<close> with nothing else happening before its previews arrive.\<close>

definition handleFiles :: "'f collaborators \<Rightarrow> 'f list option \<Rightarrow> 'f modal \<Rightarrow> 'f modal" where
  "handleFiles env newFiles s =
     (case handleFiles_sync env newFiles s of
        (s', None) \<Rightarrow> s'
      | (s', Some totalFiles) \<Rightarrow> handleFiles_resume env totalFiles s')"

text \<open>A sequence of add-files calls, each on the state the one before left.\<close>

fun handleFiles_seq ::
    "'f collaborators \<Rightarrow> 'f list option list \<Rightarrow> 'f modal \<Rightarrow> 'f modal" where
  "handleFiles_seq env [] s = s"
| "handleFiles_seq env (newFiles # rest) s = handleFiles_seq env rest (handleFiles env newFiles s)"

text \<open>The candidates of one call that pass validation, in the order they came.\<close>

definition valid_candidates :: "'f collaborators \<Rightarrow> 'f list option \<Rightarrow> 'f list" where
  "valid_candidates env newFiles =
     (case newFiles of
        None \<Rightarrow> []
      | Some fs \<Rightarrow> filter (\<lambda>f. valid (validateFileForUpload env f True)) fs)"

subsection \<open>\<^verbatim>\<open>removeFile\<close>\<close>

text \<open>\<^verbatim>\<open>xs.filter((_, i) => i !== index)\<close> for an integer \<^verbatim>\<open>index\<close>.\<close>

definition filter_index :: "int \<Rightarrow> 'a list \<Rightarrow> 'a list" where
  "filter_index index xs =
     map snd (filter (\<lambda>(i, x). int i \<noteq> index) (zip [0..<length xs] xs))"

definition removeFile :: "int \<Rightarrow> 'f modal \<Rightarrow> 'f modal" where
  "removeFile index s =
     (let newFiles = filter_index index (uploadedFiles s);
          newPreviews = filter_index index (previews s)
      in s\<lparr>uploadedFiles := newFiles, previews := newPreviews, showPreview := None,
            fileInputValue := (case fileInputValue s of None \<Rightarrow> None | Some v \<Rightarrow> Some [])\<rparr>)"

subsection \<open>\<^verbatim>\<open>handleGenerate\<close>\<close>

text \<open>The \<^verbatim>\<open>catch\<close> block.\<close>

definition generation_failed :: "js_thrown \<Rightarrow> 'f modal \<Rightarrow> 'f modal" where
  "generation_failed e s =
     s\<lparr>consoleErrors := consoleErrors s @ [e],
       toasts := toasts s @
         [\<lparr>title = ''Generation failed'',
           description =
             (case e of
                Error_instance m \<Rightarrow> m
              | Non_error \<Rightarrow> ''Failed to generate page. Please try again.''),
           variant = ''destructive'', duration = 4000\<rparr>],
       isGenerating := False\<rparr>"

text \<open>
  \<^verbatim>\<open>handleGenerate\<close>, run as far as it ever gets with nothing else happening meanwhile.
  Where an awaited promise never settles the function stays suspended, and the result is
  the state it holds while the submission is in flight.
\<close>

definition handleGenerate :: "'f collaborators \<Rightarrow> 'f modal \<Rightarrow> 'f modal" where
  "handleGenerate env s =
     (if trim (prompt s) = [] then s
      else
        (let s1 = s\<lparr>isGenerating := True, uploads := uploads s @ uploadedFiles s\<rparr>
         in case promise_all
                   (map (\<lambda>file. then_promise url (uploadToS3 env file)) (uploadedFiles s)) of
              Pending \<Rightarrow> s1
            | Rejected t e \<Rightarrow> generation_failed e s1
            | Fulfilled t urls \<Rightarrow>
                (let data = Generate_data (prompt s)
                              (if length urls > 0 then Some urls else None);
                     s2 = s1\<lparr>generated := generated s1 @ [data]\<rparr>
                 in case onGenerate env data of
                      Pending \<Rightarrow> s2
                    | Fulfilled t' u \<Rightarrow> s2
                    | Rejected t' e \<Rightarrow> generation_failed e s2)))"

text \<open>
  The two ways the user submits. The button carries
  \<^verbatim>\<open>disabled={!prompt.trim() || isGenerating}\<close>, and a disabled button fires no click.
  The shortcut hook is given \<^verbatim>\<open>{ disabled: !isOpen || isGenerating }\<close> and the callback
  \<^verbatim>\<open>if (isOpen && !isGenerating && prompt.trim()) handleGenerate()\<close>.
\<close>

definition submit_disabled :: "'f modal \<Rightarrow> bool" where
  "submit_disabled s = (trim (prompt s) = [] \<or> isGenerating s)"

definition click_submit :: "'f collaborators \<Rightarrow> 'f modal \<Rightarrow> 'f modal" where
  "click_submit env s = (if submit_disabled s then s else handleGenerate env s)"

definition shortcut_submit :: "props \<Rightarrow> 'f collaborators \<Rightarrow> 'f modal \<Rightarrow> 'f modal" where
  "shortcut_submit p env s =
     (if \<not> isOpen p \<or> isGenerating s then s
      else if isOpen p \<and> \<not> isGenerating s \<and> trim (prompt s) \<noteq> []
           then handleGenerate env s
           else s)"

subsection \<open>Runs of whole operations\<close>

text \<open>
  What the user can do to the composer, each operation run to its end before the next one
  starts: select files, remove a thumbnail, type into the prompt, submit, and open the
  composer (the reset effect).
\<close>

datatype 'f action =
    Add_files "'f list option"
  | Remove_file int
  | Set_prompt string
  | Submit
  | Open_composer

fun perform :: "'f collaborators \<Rightarrow> props \<Rightarrow> 'f action \<Rightarrow> 'f modal \<Rightarrow> 'f modal" where
  "perform env p (Add_files newFiles) s = handleFiles env newFiles s"
| "perform env p (Remove_file index) s = removeFile index s"
| "perform env p (Set_prompt v) s = s\<lparr>prompt := v\<rparr>"
| "perform env p Submit s = handleGenerate env s"
| "perform env p Open_composer s = reset_on_open p s"

fun run :: "'f collaborators \<Rightarrow> props \<Rightarrow> 'f action list \<Rightarrow> 'f modal \<Rightarrow> 'f modal" where
  "run env p [] s = s"
| "run env p (a # as) s = run env p as (perform env p a s)"

text \<open>
  The preview a file gets, and the correspondence of the two lists: the preview at each
  index is the preview of the attachment at that index.
\<close>

definition preview_of :: "'f collaborators \<Rightarrow> 'f \<Rightarrow> string option" where
  "preview_of env f = settled_value (generateFilePreview env f)"

definition previews_in_step :: "'f collaborators \<Rightarrow> 'f modal \<Rightarrow> bool" where
  "previews_in_step env s = (map (preview_of env) (uploadedFiles s) = map Some (previews s))"

section \<open>The rate limit configuration\<close>

text \<open>
  The limiter as the source constructs it: \<^verbatim>\<open>Ratelimit.fixedWindow(3, "7 d")\<close>, with
  \<^verbatim>\<open>analytics\<close> and \<^verbatim>\<open>prefix\<close>. The other constructors are the library's other
  algorithms.
\<close>

datatype limiter =
    FixedWindow nat string
  | SlidingWindow nat string
  | TokenBucket nat string nat

record ratelimit =
  limiter :: limiter
  analytics :: bool
  prefix :: string

definition freeTierRateLimit :: ratelimit where
  "freeTierRateLimit =
     \<lparr>limiter = FixedWindow 3 ''7 d'', analytics = True, prefix = ''ratelimit:free-comics''\<rparr>"

text \<open>
  Modelled from the spec: the limiter library is not among the sources. The spec reads the
  window \<^verbatim>\<open>"7 d"\<close> as seven days; the notation is a decimal count, an optional space and
  a unit among ms, s, m, h and d, and the library turns it into milliseconds.
\<close>

definition is_digit :: "char \<Rightarrow> bool" where
  "is_digit c = (48 \<le> (of_char c :: nat) \<and> (of_char c :: nat) \<le> 57)"

definition decimal :: "string \<Rightarrow> nat" where
  "decimal ds = foldl (\<lambda>n c. 10 * n + (of_char c - 48)) 0 ds"

definition unit_ms :: "string \<Rightarrow> nat option" where
  "unit_ms u =
     (if u = ''ms'' then Some 1
      else if u = ''s'' then Some 1000
      else if u = ''m'' then Some (1000 * 60)
      else if u = ''h'' then Some (1000 * 60 * 60)
      else if u = ''d'' then Some (1000 * 60 * 60 * 24)
      else None)"

definition ms :: "string \<Rightarrow> nat option" where
  "ms d =
     (let digits = takeWhile is_digit d;
          rest = dropWhile is_digit d;
          unit_name = (case rest of
                         [] \<Rightarrow> []
                       | c # u \<Rightarrow> if is_js_whitespace c then u else rest)
      in if digits = [] then None
         else (case unit_ms unit_name of
                 None \<Rightarrow> None
               | Some k \<Rightarrow> Some (decimal digits * k)))"

text \<open>The quota and the window a limiter is built with, and its kind.\<close>

fun quota :: "limiter \<Rightarrow> nat" where
  "quota (FixedWindow tokens window) = tokens"
| "quota (SlidingWindow tokens window) = tokens"
| "quota (TokenBucket refillRate interval maxTokens) = maxTokens"

fun window_ms :: "limiter \<Rightarrow> nat option" where
  "window_ms (FixedWindow tokens window) = ms window"
| "window_ms (SlidingWindow tokens window) = ms window"
| "window_ms (TokenBucket refillRate interval maxTokens) = ms interval"

fun is_fixed_window :: "limiter \<Rightarrow> bool" where
  "is_fixed_window (FixedWindow tokens window) = True"
| "is_fixed_window l = False"

section \<open>A concrete session\<close>

text \<open>
  File handles are file names here. The validator accepts \<^verbatim>\<open>a.png\<close>, \<^verbatim>\<open>b.png\<close>
  and \<^verbatim>\<open>c.png\<close>, rejects \<^verbatim>\<open>big.png\<close> with a reason and rejects anything else with
  none; every preview is computed; the upload of \<^verbatim>\<open>b.png\<close> fails with an
  \<^verbatim>\<open>Error\<close>, that of \<^verbatim>\<open>c.png\<close> with a value that is no \<^verbatim>\<open>Error\<close>, later; the
  handler fails on the prompt \<^verbatim>\<open>fail\<close>.
\<close>

definition demo_env :: "string collaborators" where
  "demo_env =
     \<lparr>validateFileForUpload =
        (\<lambda>f isImage.
           if f \<in> {''a.png'', ''b.png'', ''c.png''} then \<lparr>valid = True, error = None\<rparr>
           else if f = ''big.png'' then \<lparr>valid = False, error = Some ''File too large''\<rparr>
           else \<lparr>valid = False, error = None\<rparr>),
      generateFilePreview = (\<lambda>f. Fulfilled 1 (''data:'' @ f)),
      uploadToS3 =
        (\<lambda>f. if f = ''b.png'' then Rejected 2 (Error_instance ''Upload failed'')
              else if f = ''c.png'' then Rejected 5 Non_error
              else Fulfilled 3 \<lparr>url = ''https://bucket/'' @ f\<rparr>),
      onGenerate =
        (\<lambda>d. if data_prompt d = ''fail'' then Rejected 9 (Error_instance ''No credits'')
              else Fulfilled 9 ())\<rparr>"

definition demo_props :: props where
  "demo_props = \<lparr>isOpen = True, isRedrawMode = False, existingPrompt = []\<rparr>"

text \<open>A draft with a prompt and the given attachments, previews in step.\<close>

definition draft :: "string \<Rightarrow> string list \<Rightarrow> string modal" where
  "draft text files =
     initial_modal\<lparr>prompt := text, uploadedFiles := files,
                   previews := map (\<lambda>f. ''data:'' @ f) files\<rparr>"

text \<open>
  The same collaborators, with previews that take longer to compute.
\<close>

definition slow_env :: "string collaborators" where
  "slow_env = demo_env\<lparr>generateFilePreview := (\<lambda>f. Fulfilled 7 (''data:'' @ f))\<rparr>"

text \<open>
  Three moments of a session. \<^verbatim>\<open>a.png\<close> has just been selected and its preview is
  still being computed. Then \<^verbatim>\<open>b.png\<close> is selected as well before that preview is
  there; the second call's previews arrive first, the first call's afterwards. In another
  session \<^verbatim>\<open>a.png\<close> is attached with its preview, \<^verbatim>\<open>b.png\<close> is selected, the
  thumbnail of \<^verbatim>\<open>a.png\<close> is removed while the previews are computed, and then they
  arrive.
\<close>

definition first_selected :: "string modal" where
  "first_selected = fst (handleFiles_sync slow_env (Some [''a.png'']) initial_modal)"

definition overlapped :: "string modal" where
  "overlapped =
     handleFiles_resume slow_env [''a.png'']
       (handleFiles_resume demo_env [''a.png'', ''b.png'']
          (fst (handleFiles_sync demo_env (Some [''b.png'']) first_selected)))"

definition removed_meanwhile :: "string modal" where
  "removed_meanwhile =
     handleFiles_resume demo_env [''a.png'', ''b.png'']
       (removeFile 0
          (fst (handleFiles_sync demo_env (Some [''b.png''])
                  (handleFiles demo_env (Some [''a.png'']) initial_modal))))"

section \<open>Facts about \<^verbatim>\<open>Promise.all\<close>\<close>

lemma earliest_rejection_mem:
  "earliest_rejection ps = Some (t, e) \<Longrightarrow> Rejected t e \<in> set ps"
  by (induction ps arbitrary: t e rule: earliest_rejection.induct)
     (auto split: option.splits if_splits)

lemma earliest_rejection_None:
  "(earliest_rejection ps = None) = (\<forall>t e. Rejected t e \<notin> set ps)"
  by (induction ps rule: earliest_rejection.induct) (auto split: option.splits)

lemma all_fulfilled_values:
  "all_fulfilled ps = Some (t, vs) \<Longrightarrow> map settled_value ps = map Some vs"
  by (induction ps arbitrary: t vs rule: all_fulfilled.induct) (auto split: option.splits)

lemma all_fulfilled_Some:
  "\<forall>p \<in> set ps. settled_value p \<noteq> None \<Longrightarrow>
     \<exists>t. all_fulfilled ps = Some (t, map (\<lambda>p. the (settled_value p)) ps)"
proof (induction ps)
  case Nil
  then show ?case by simp
next
  case (Cons p ps)
  then obtain t where "all_fulfilled ps = Some (t, map (\<lambda>p. the (settled_value p)) ps)"
    by auto
  then show ?case using Cons.prems by (cases p) simp_all
qed

lemma not_rejected: "settled_value p \<noteq> None \<Longrightarrow> p \<noteq> Rejected t e"
  by (cases p) simp_all

lemma promise_all_fulfilled:
  assumes "\<forall>p \<in> set ps. settled_value p \<noteq> None"
  shows "\<exists>t. promise_all ps = Fulfilled t (map (\<lambda>p. the (settled_value p)) ps)"
proof -
  have "earliest_rejection ps = None"
    unfolding earliest_rejection_None using assms not_rejected by fastforce
  moreover obtain t where "all_fulfilled ps = Some (t, map (\<lambda>p. the (settled_value p)) ps)"
    using all_fulfilled_Some [OF assms] by blast
  ultimately show ?thesis by (simp add: promise_all_def)
qed

lemma promise_all_rejected:
  assumes "Rejected t e \<in> set ps"
  shows "\<exists>t' e'. promise_all ps = Rejected t' e' \<and> Rejected t' e' \<in> set ps"
proof -
  have "earliest_rejection ps \<noteq> None"
    using assms earliest_rejection_None by blast
  then obtain t' e' where r: "earliest_rejection ps = Some (t', e')" by auto
  then have "promise_all ps = Rejected t' e'" by (simp add: promise_all_def)
  with earliest_rejection_mem [OF r] show ?thesis by blast
qed

lemma promise_all_Fulfilled_values:
  "promise_all ps = Fulfilled t vs \<Longrightarrow> map settled_value ps = map Some vs"
  by (auto simp: promise_all_def all_fulfilled_values split: option.splits)

section \<open>Adding files: the attachment list\<close>

lemma valid_files_filter:
  "map fst (filter (\<lambda>(file, v). valid v) (map (\<lambda>file. (file, validateFileForUpload env file True)) fs))
     = filter (\<lambda>f. valid (validateFileForUpload env f True)) fs"
  by (induction fs) simp_all

lemma handleFiles_resume_uploadedFiles:
  "uploadedFiles (handleFiles_resume env totalFiles s) = uploadedFiles s"
  by (simp add: handleFiles_resume_def split: promise.splits)

lemma handleFiles_sync_uploadedFiles:
  "uploadedFiles (fst (handleFiles_sync env newFiles s)) =
     (if valid_candidates env newFiles = [] then uploadedFiles s
      else take 2 (uploadedFiles s @ valid_candidates env newFiles))"
proof (cases newFiles)
  case None
  then show ?thesis by (simp add: handleFiles_sync_def valid_candidates_def)
next
  case (Some fs)
  let ?valid = "map fst (filter (\<lambda>(file, v). valid v)
                  (map (\<lambda>file. (file, validateFileForUpload env file True)) fs))"
  have v: "?valid = valid_candidates env newFiles"
    using Some by (simp only: valid_files_filter valid_candidates_def option.case)
  show ?thesis
  proof (cases "?valid = []")
    case True
    then show ?thesis
      using v Some by (simp add: handleFiles_sync_def Let_def)
  next
    case False
    have "uploadedFiles (fst (handleFiles_sync env newFiles s)) = take 2 (uploadedFiles s @ ?valid)"
      using False Some by (simp add: handleFiles_sync_def Let_def)
    then show ?thesis
      using False v by simp
  qed
qed

lemma handleFiles_uploadedFiles:
  "uploadedFiles (handleFiles env newFiles s) =
     (if valid_candidates env newFiles = [] then uploadedFiles s
      else take 2 (uploadedFiles s @ valid_candidates env newFiles))"
proof -
  obtain s' w where sw: "handleFiles_sync env newFiles s = (s', w)"
    by (cases "handleFiles_sync env newFiles s")
  have "uploadedFiles (handleFiles env newFiles s) = uploadedFiles s'"
    using sw by (cases w) (simp_all add: handleFiles_def handleFiles_resume_uploadedFiles)
  moreover have "uploadedFiles s' = uploadedFiles (fst (handleFiles_sync env newFiles s))"
    using sw by simp
  ultimately show ?thesis
    by (simp only: handleFiles_sync_uploadedFiles)
qed

lemma take_two_absorb: "take n (take n xs @ zs) = take n (xs @ zs)"
  by (simp add: min_def)

text \<open>
  C1. Start from at most two attachments and run any sequence of add-files calls. The
  attachment list is then the first two entries of the old attachments followed by the
  valid candidates of every call in arrival order; so it never holds more than two.
\<close>

theorem attachments_first_two:
  "length (uploadedFiles s) \<le> 2 \<Longrightarrow>
     uploadedFiles (handleFiles_seq env batches s)
       = take 2 (uploadedFiles s @ concat (map (valid_candidates env) batches))
     \<and> length (uploadedFiles (handleFiles_seq env batches s)) \<le> 2"
proof (induction batches arbitrary: s)
  case Nil
  then show ?case by simp
next
  case (Cons b bs)
  let ?s' = "handleFiles env b s"
  have files: "uploadedFiles ?s' = take 2 (uploadedFiles s @ valid_candidates env b)"
    using Cons.prems by (simp add: handleFiles_uploadedFiles)
  then have "length (uploadedFiles ?s') \<le> 2" by simp
  from Cons.IH [OF this] files show ?case
    by (simp add: take_two_absorb [of 2 "uploadedFiles s @ valid_candidates env b", simplified])
qed

theorem attachments_first_two_witness:
  "length (uploadedFiles (initial_modal :: string modal)) \<le> 2 \<and>
   uploadedFiles
     (handleFiles_seq demo_env
        [Some [''a.png'', ''big.png''], None, Some [''b.png'', ''c.png'']] initial_modal)
     = [''a.png'', ''b.png'']"
  using attachments_first_two
    [of initial_modal demo_env "[Some [''a.png'', ''big.png''], None, Some [''b.png'', ''c.png'']]"]
  by (simp add: initial_modal_def valid_candidates_def demo_env_def)

section \<open>Adding files: notifications\<close>

lemma handleFiles_resume_toasts: "toasts (handleFiles_resume env fs s) = toasts s"
  by (simp add: handleFiles_resume_def split: promise.splits)

lemma invalid_toasts_filter:
  "concat (map (\<lambda>(file, v). invalid_file_toast v)
             (map (\<lambda>file. (file, validateFileForUpload env file True)) fs))
   = map (\<lambda>f. \<lparr>title = ''Invalid file'',
               description = the (error (validateFileForUpload env f True)),
               variant = ''destructive'', duration = 4000\<rparr>)
       (filter (\<lambda>f. \<not> valid (validateFileForUpload env f True) \<and>
                     truthy (error (validateFileForUpload env f True))) fs)"
  by (induction fs) (simp_all add: invalid_file_toast_def)

lemma handleFiles_toasts:
  "toasts (handleFiles env (Some fs) s) =
     toasts s @
       concat (map (\<lambda>(file, v). invalid_file_toast v)
                 (map (\<lambda>file. (file, validateFileForUpload env file True)) fs))"
  by (simp add: handleFiles_def handleFiles_sync_def Let_def handleFiles_resume_toasts)

text \<open>
  C7 as stated fails: \<^verbatim>\<open>notes.txt\<close> fails validation with no reason given, and no
  notification is shown for it.
\<close>

theorem invalid_file_unreported:
  "\<not> valid (validateFileForUpload demo_env ''notes.txt'' True) \<and>
   toasts (handleFiles demo_env (Some [''notes.txt'', ''a.png'']) initial_modal) = [] \<and>
   uploadedFiles (handleFiles demo_env (Some [''notes.txt'', ''a.png'']) initial_modal) = [''a.png'']"
  by (simp add: handleFiles_def handleFiles_sync_def handleFiles_resume_def promise_all_def
      demo_env_def initial_modal_def invalid_file_toast_def truthy_def Let_def)

text \<open>
  C7, as the code has it. Every candidate that fails validation is dropped. It is reported
  by a toast of its own, carrying the validator's reason, exactly when the validator gives
  a reason that is not empty; the toasts come in the candidates' order. The valid
  candidates of the same call are processed whatever the others were.
\<close>

theorem invalid_files_reported_when_reason:
  "toasts (handleFiles env (Some fs) s) =
     toasts s @
       map (\<lambda>f. \<lparr>title = ''Invalid file'',
                 description = the (error (validateFileForUpload env f True)),
                 variant = ''destructive'', duration = 4000\<rparr>)
         (filter (\<lambda>f. \<not> valid (validateFileForUpload env f True) \<and>
                       truthy (error (validateFileForUpload env f True))) fs)
   \<and> uploadedFiles (handleFiles env (Some fs) s) =
       (if filter (\<lambda>f. valid (validateFileForUpload env f True)) fs = [] then uploadedFiles s
        else take 2 (uploadedFiles s @ filter (\<lambda>f. valid (validateFileForUpload env f True)) fs))"
  using handleFiles_uploadedFiles [of env "Some fs" s]
  by (simp only: handleFiles_toasts invalid_toasts_filter valid_candidates_def option.case simp_thms)

theorem invalid_files_reported_when_reason_witness:
  "map description (toasts (handleFiles demo_env (Some [''big.png'', ''notes.txt'', ''a.png'']) initial_modal))
     = [''File too large''] \<and>
   uploadedFiles (handleFiles demo_env (Some [''big.png'', ''notes.txt'', ''a.png'']) initial_modal)
     = [''a.png'']"
  using invalid_files_reported_when_reason [of demo_env "[''big.png'', ''notes.txt'', ''a.png'']" initial_modal]
  by (simp add: demo_env_def initial_modal_def truthy_def)

section \<open>Removing a file\<close>

lemma filter_index_out_of_range:
  assumes "index < 0 \<or> int (length xs) \<le> index"
  shows "filter_index index xs = xs"
proof -
  have "\<forall>p \<in> set (zip [0..<length xs] xs). (\<lambda>(i, x). int i \<noteq> index) p"
    using assms by (auto dest!: set_zip_leftD)
  then have "filter (\<lambda>(i, x). int i \<noteq> index) (zip [0..<length xs] xs) = zip [0..<length xs] xs"
    by (simp only: filter_True)
  then show ?thesis
    by (simp add: filter_index_def)
qed

lemma filter_index_map: "filter_index index (map f xs) = map f (filter_index index xs)"
proof -
  have "zip [0..<length xs] (map f xs) = map (\<lambda>(i, x). (i, f x)) (zip [0..<length xs] xs)"
    by (simp add: zip_map2)
  then show ?thesis
    by (simp add: filter_index_def filter_map o_def case_prod_unfold)
qed

text \<open>
  C10. \<^verbatim>\<open>removeFile\<close> is defined for every integer index. An index outside a list
  leaves that list as it was. Whatever the index, the preview viewer is closed, and the
  file input, where there is one, has the empty value.
\<close>

theorem removeFile_total:
  "(index < 0 \<or> int (length (uploadedFiles s)) \<le> index \<longrightarrow>
      uploadedFiles (removeFile index s) = uploadedFiles s) \<and>
   (index < 0 \<or> int (length (previews s)) \<le> index \<longrightarrow>
      previews (removeFile index s) = previews s) \<and>
   showPreview (removeFile index s) = None \<and>
   fileInputValue (removeFile index s)
     = (case fileInputValue s of None \<Rightarrow> None | Some v \<Rightarrow> Some [])"
  by (simp add: removeFile_def Let_def filter_index_out_of_range)

theorem removeFile_total_witness:
  "((7::int) < 0 \<or> int (length (uploadedFiles (draft ''x'' [''a.png'', ''b.png'']))) \<le> 7) \<and>
   uploadedFiles
     (removeFile 7 ((draft ''x'' [''a.png'', ''b.png''])
        \<lparr>showPreview := Some 1, fileInputValue := Some ''C:/fakepath/b.png''\<rparr>))
     = [''a.png'', ''b.png''] \<and>
   previews
     (removeFile 7 ((draft ''x'' [''a.png'', ''b.png''])
        \<lparr>showPreview := Some 1, fileInputValue := Some ''C:/fakepath/b.png''\<rparr>))
     = [''data:a.png'', ''data:b.png''] \<and>
   showPreview
     (removeFile 7 ((draft ''x'' [''a.png'', ''b.png''])
        \<lparr>showPreview := Some 1, fileInputValue := Some ''C:/fakepath/b.png''\<rparr>))
     = None \<and>
   fileInputValue
     (removeFile 7 ((draft ''x'' [''a.png'', ''b.png''])
        \<lparr>showPreview := Some 1, fileInputValue := Some ''C:/fakepath/b.png''\<rparr>))
     = Some []"
  using removeFile_total [of 7 "(draft ''x'' [''a.png'', ''b.png''])
      \<lparr>showPreview := Some 1, fileInputValue := Some ''C:/fakepath/b.png''\<rparr>"]
  by (simp add: draft_def initial_modal_def)

section \<open>Submitting\<close>

lemma then_promise_Rejected:
  "(then_promise f p = Rejected t e) = (p = Rejected t e)"
  by (cases p) simp_all

lemma uploads_fulfilled:
  assumes "\<forall>f \<in> set fs. \<exists>t. uploadToS3 env f = Fulfilled t \<lparr>url = u f\<rparr>"
  shows "\<exists>t. promise_all (map (\<lambda>file. then_promise url (uploadToS3 env file)) fs)
           = Fulfilled t (map u fs)"
proof -
  let ?ps = "map (\<lambda>file. then_promise url (uploadToS3 env file)) fs"
  have each: "settled_value (then_promise url (uploadToS3 env f)) = Some (u f)"
    if "f \<in> set fs" for f
    using assms that by fastforce
  then have "\<forall>p \<in> set ?ps. settled_value p \<noteq> None" by auto
  from promise_all_fulfilled [OF this]
  obtain t where "promise_all ?ps = Fulfilled t (map (\<lambda>p. the (settled_value p)) ?ps)" ..
  moreover have "map (\<lambda>p. the (settled_value p)) ?ps = map u fs"
    using each by simp
  ultimately show ?thesis by auto
qed

lemma uploads_rejected:
  assumes "\<exists>f \<in> set fs. \<exists>t e. uploadToS3 env f = Rejected t e"
  shows "\<exists>f \<in> set fs. \<exists>t e. uploadToS3 env f = Rejected t e \<and>
           promise_all (map (\<lambda>file. then_promise url (uploadToS3 env file)) fs) = Rejected t e"
proof -
  let ?ps = "map (\<lambda>file. then_promise url (uploadToS3 env file)) fs"
  from assms obtain f t e where "f \<in> set fs" "uploadToS3 env f = Rejected t e" by blast
  then have "Rejected t e \<in> set ?ps" by force
  from promise_all_rejected [OF this]
  obtain t' e' where r: "promise_all ?ps = Rejected t' e'" and m: "Rejected t' e' \<in> set ?ps"
    by blast
  from m obtain g where "g \<in> set fs" "then_promise url (uploadToS3 env g) = Rejected t' e'"
    by auto
  then show ?thesis using r by (auto simp: then_promise_Rejected)
qed

lemma generation_failed_frame:
  "uploadedFiles (generation_failed e s) = uploadedFiles s"
  "previews (generation_failed e s) = previews s"
  "prompt (generation_failed e s) = prompt s"
  "generated (generation_failed e s) = generated s"
  "uploads (generation_failed e s) = uploads s"
  by (simp_all add: generation_failed_def)

lemma handleGenerate_frame:
  "uploadedFiles (handleGenerate env s) = uploadedFiles s \<and>
   previews (handleGenerate env s) = previews s \<and>
   prompt (handleGenerate env s) = prompt s"
  by (simp add: handleGenerate_def Let_def generation_failed_frame split: promise.splits)

lemma handleGenerate_blank: "trim (prompt s) = [] \<Longrightarrow> handleGenerate env s = s"
  by (simp add: handleGenerate_def)

text \<open>
  C2. With a prompt that is not blank and every upload yielding a URL, the handler is
  called exactly once more, with the prompt as given; \<^verbatim>\<open>characterUrls\<close> is the list of
  the uploads' URLs in the order of the attachments when there is an attachment, and
  absent when there is none.
\<close>

theorem submit_invokes_handler_once:
  assumes "trim (prompt s) \<noteq> []"
    and "\<forall>f \<in> set (uploadedFiles s). \<exists>t. uploadToS3 env f = Fulfilled t \<lparr>url = u f\<rparr>"
  shows "generated (handleGenerate env s) =
           generated s @
             [Generate_data (prompt s)
                (if uploadedFiles s = [] then None else Some (map u (uploadedFiles s)))]"
proof -
  from uploads_fulfilled [OF assms(2)] obtain t where
    "promise_all (map (\<lambda>file. then_promise url (uploadToS3 env file)) (uploadedFiles s))
       = Fulfilled t (map u (uploadedFiles s))" ..
  then show ?thesis
    using assms(1)
    by (simp add: handleGenerate_def Let_def generation_failed_frame split: promise.splits)
qed

theorem submit_invokes_handler_once_witness:
  "trim (prompt (draft ''A dragon lands'' [''a.png'', ''a2.png''])) \<noteq> [] \<and>
   generated (handleGenerate demo_env (draft ''A dragon lands'' [''a.png'', ''a2.png'']))
     = [Generate_data ''A dragon lands'' (Some [''https://bucket/a.png'', ''https://bucket/a2.png''])] \<and>
   generated (handleGenerate demo_env (draft ''A dragon lands'' []))
     = [Generate_data ''A dragon lands'' None]"
  using submit_invokes_handler_once [of "draft ''A dragon lands'' [''a.png'', ''a2.png'']" demo_env "\<lambda>f. ''https://bucket/'' @ f"]
        submit_invokes_handler_once [of "draft ''A dragon lands'' []" demo_env "\<lambda>f. ''https://bucket/'' @ f"]
  by (simp add: draft_def initial_modal_def demo_env_def trim_def is_js_whitespace_def
      handleGenerate_def promise_all_def generation_failed_def Let_def)

text \<open>
  C3. With a prompt that is not blank: when some upload is rejected the handler is not
  called, the state is idle afterwards and one toast is added, whose description is the
  message of a rejected upload's reason when that reason is an \<^verbatim>\<open>Error\<close> and the
  generic text otherwise. When every upload yields a URL and the handler is rejected, the
  state is idle afterwards and the toast describes the handler's reason the same way.
\<close>

theorem failed_submit_reports_and_idles:
  assumes "trim (prompt s) \<noteq> []"
  shows
    "((\<exists>f \<in> set (uploadedFiles s). \<exists>t e. uploadToS3 env f = Rejected t e) \<longrightarrow>
        generated (handleGenerate env s) = generated s \<and>
        \<not> isGenerating (handleGenerate env s) \<and>
        (\<exists>f \<in> set (uploadedFiles s). \<exists>t e. uploadToS3 env f = Rejected t e \<and>
           toasts (handleGenerate env s) = toasts s @
             [\<lparr>title = ''Generation failed'',
               description =
                 (case e of
                    Error_instance m \<Rightarrow> m
                  | Non_error \<Rightarrow> ''Failed to generate page. Please try again.''),
               variant = ''destructive'', duration = 4000\<rparr>]))
     \<and>
     ((\<forall>f \<in> set (uploadedFiles s). \<exists>t. uploadToS3 env f = Fulfilled t \<lparr>url = u f\<rparr>) \<and>
      onGenerate env
        (Generate_data (prompt s)
           (if uploadedFiles s = [] then None else Some (map u (uploadedFiles s))))
        = Rejected t' e' \<longrightarrow>
        \<not> isGenerating (handleGenerate env s) \<and>
        toasts (handleGenerate env s) = toasts s @
          [\<lparr>title = ''Generation failed'',
            description =
              (case e' of
                 Error_instance m \<Rightarrow> m
               | Non_error \<Rightarrow> ''Failed to generate page. Please try again.''),
            variant = ''destructive'', duration = 4000\<rparr>])"
proof (intro conjI impI)
  assume "\<exists>f \<in> set (uploadedFiles s). \<exists>t e. uploadToS3 env f = Rejected t e"
  from uploads_rejected [OF this] obtain f t e where
    f: "f \<in> set (uploadedFiles s)" "uploadToS3 env f = Rejected t e" and
    r: "promise_all (map (\<lambda>file. then_promise url (uploadToS3 env file)) (uploadedFiles s))
          = Rejected t e"
    by blast
  have s': "handleGenerate env s =
      generation_failed e (s\<lparr>isGenerating := True, uploads := uploads s @ uploadedFiles s\<rparr>)"
    using assms r by (simp add: handleGenerate_def Let_def)
  show "generated (handleGenerate env s) = generated s"
    by (simp add: s' generation_failed_def)
  show "\<not> isGenerating (handleGenerate env s)"
    by (simp add: s' generation_failed_def)
  have "toasts (handleGenerate env s) = toasts s @
             [\<lparr>title = ''Generation failed'',
               description =
                 (case e of
                    Error_instance m \<Rightarrow> m
                  | Non_error \<Rightarrow> ''Failed to generate page. Please try again.''),
               variant = ''destructive'', duration = 4000\<rparr>]"
    by (simp add: s' generation_failed_def)
  with f show "\<exists>f \<in> set (uploadedFiles s). \<exists>t e. uploadToS3 env f = Rejected t e \<and>
           toasts (handleGenerate env s) = toasts s @
             [\<lparr>title = ''Generation failed'',
               description =
                 (case e of
                    Error_instance m \<Rightarrow> m
                  | Non_error \<Rightarrow> ''Failed to generate page. Please try again.''),
               variant = ''destructive'', duration = 4000\<rparr>]"
    by blast
next
  assume h: "(\<forall>f \<in> set (uploadedFiles s). \<exists>t. uploadToS3 env f = Fulfilled t \<lparr>url = u f\<rparr>) \<and>
      onGenerate env
        (Generate_data (prompt s)
           (if uploadedFiles s = [] then None else Some (map u (uploadedFiles s))))
        = Rejected t' e'"
  then obtain t where
    "promise_all (map (\<lambda>file. then_promise url (uploadToS3 env file)) (uploadedFiles s))
       = Fulfilled t (map u (uploadedFiles s))"
    using uploads_fulfilled [of "uploadedFiles s" env u] by blast
  then have s': "handleGenerate env s =
      generation_failed e'
        (s\<lparr>isGenerating := True, uploads := uploads s @ uploadedFiles s,
           generated := generated s @
             [Generate_data (prompt s)
               (if uploadedFiles s = [] then None else Some (map u (uploadedFiles s)))]\<rparr>)"
    using assms h by (cases "uploadedFiles s = []") (simp_all add: handleGenerate_def Let_def)
  show "\<not> isGenerating (handleGenerate env s)"
    by (simp add: s' generation_failed_def)
  show "toasts (handleGenerate env s) = toasts s @
          [\<lparr>title = ''Generation failed'',
            description =
              (case e' of
                 Error_instance m \<Rightarrow> m
               | Non_error \<Rightarrow> ''Failed to generate page. Please try again.''),
            variant = ''destructive'', duration = 4000\<rparr>]"
    by (simp add: s' generation_failed_def)
qed

theorem failed_submit_reports_and_idles_witness:
  "trim (prompt (draft ''A dragon lands'' [''a.png'', ''c.png'', ''b.png''])) \<noteq> [] \<and>
   uploadToS3 demo_env ''b.png'' = Rejected 2 (Error_instance ''Upload failed'') \<and>
   generated (handleGenerate demo_env (draft ''A dragon lands'' [''a.png'', ''c.png'', ''b.png''])) = [] \<and>
   \<not> isGenerating (handleGenerate demo_env (draft ''A dragon lands'' [''a.png'', ''c.png'', ''b.png''])) \<and>
   map description (toasts (handleGenerate demo_env (draft ''A dragon lands'' [''a.png'', ''c.png'', ''b.png''])))
     = [''Upload failed''] \<and>
   onGenerate demo_env (Generate_data ''fail'' (Some [''https://bucket/a.png'']))
     = Rejected 9 (Error_instance ''No credits'') \<and>
   \<not> isGenerating (handleGenerate demo_env (draft ''fail'' [''a.png''])) \<and>
   map description (toasts (handleGenerate demo_env (draft ''fail'' [''a.png'']))) = [''No credits'']"
  using failed_submit_reports_and_idles [of "draft ''A dragon lands'' [''a.png'', ''c.png'', ''b.png'']" demo_env
              "\<lambda>f. ''https://bucket/'' @ f" 9 "Error_instance ''No credits''"]
        failed_submit_reports_and_idles [of "draft ''fail'' [''a.png'']" demo_env
              "\<lambda>f. ''https://bucket/'' @ f" 9 "Error_instance ''No credits''"]
  by (simp add: draft_def initial_modal_def demo_env_def trim_def is_js_whitespace_def
      handleGenerate_def promise_all_def generation_failed_def Let_def)

text \<open>
  C4 as stated fails: one attachment, upload and handler both fulfilled, and the state is
  in flight afterwards.
\<close>

theorem success_edge_not_idle:
  "trim (prompt (draft ''A dragon lands'' [''a.png''])) \<noteq> [] \<and>
   uploadToS3 demo_env ''a.png'' = Fulfilled 3 \<lparr>url = ''https://bucket/a.png''\<rparr> \<and>
   onGenerate demo_env (Generate_data ''A dragon lands'' (Some [''https://bucket/a.png'']))
     = Fulfilled 9 () \<and>
   generated (handleGenerate demo_env (draft ''A dragon lands'' [''a.png'']))
     = [Generate_data ''A dragon lands'' (Some [''https://bucket/a.png''])] \<and>
   isGenerating (handleGenerate demo_env (draft ''A dragon lands'' [''a.png'']))"
  by (simp add: draft_def initial_modal_def demo_env_def trim_def is_js_whitespace_def
      handleGenerate_def promise_all_def generation_failed_def Let_def)

text \<open>
  C4, as the code has it. When every upload and the handler succeed, the submission state
  is still in flight when \<^verbatim>\<open>handleGenerate\<close> ends, and no toast is added. The state
  becomes idle when the composer is opened the next time, by the reset effect.
\<close>

theorem successful_submit_stays_in_flight:
  assumes "trim (prompt s) \<noteq> []"
    and "\<forall>f \<in> set (uploadedFiles s). \<exists>t. uploadToS3 env f = Fulfilled t \<lparr>url = u f\<rparr>"
    and "onGenerate env
           (Generate_data (prompt s)
              (if uploadedFiles s = [] then None else Some (map u (uploadedFiles s))))
         = Fulfilled t' ()"
  shows "isGenerating (handleGenerate env s) \<and>
         toasts (handleGenerate env s) = toasts s \<and>
         (isOpen p \<longrightarrow> \<not> isGenerating (reset_on_open p (handleGenerate env s)))"
proof -
  from uploads_fulfilled [OF assms(2)] obtain t where
    "promise_all (map (\<lambda>file. then_promise url (uploadToS3 env file)) (uploadedFiles s))
       = Fulfilled t (map u (uploadedFiles s))" ..
  then have "handleGenerate env s =
      s\<lparr>isGenerating := True, uploads := uploads s @ uploadedFiles s,
        generated := generated s @
          [Generate_data (prompt s)
            (if uploadedFiles s = [] then None else Some (map u (uploadedFiles s)))]\<rparr>"
    using assms(1,3) by (cases "uploadedFiles s = []") (simp_all add: handleGenerate_def Let_def)
  then show ?thesis
    by (simp add: reset_on_open_def)
qed

theorem successful_submit_stays_in_flight_witness:
  "trim (prompt (draft ''A dragon lands'' [''a.png''])) \<noteq> [] \<and>
   isOpen demo_props \<and>
   isGenerating (handleGenerate demo_env (draft ''A dragon lands'' [''a.png''])) \<and>
   \<not> isGenerating (reset_on_open demo_props (handleGenerate demo_env (draft ''A dragon lands'' [''a.png''])))"
  using successful_submit_stays_in_flight [of "draft ''A dragon lands'' [''a.png'']" demo_env "\<lambda>f. ''https://bucket/'' @ f" 9 demo_props]
  by (simp add: draft_def initial_modal_def demo_env_def demo_props_def trim_def is_js_whitespace_def)

text \<open>
  C5. When the prompt is blank after trimming, or a submission is in flight, the submit
  button and the keyboard shortcut both leave the whole state as it is: the submission
  state, and with it the record of uploads started and of handler calls. On a blank
  prompt \<^verbatim>\<open>handleGenerate\<close> itself returns at once; the guard on a submission in
  flight is in the button's \<^verbatim>\<open>disabled\<close> and in the shortcut.
\<close>

theorem submit_noop_when_blank_or_in_flight:
  assumes "trim (prompt s) = [] \<or> isGenerating s"
  shows "click_submit env s = s \<and> shortcut_submit p env s = s \<and>
         (trim (prompt s) = [] \<longrightarrow> handleGenerate env s = s)"
  using assms
  by (auto simp: click_submit_def submit_disabled_def shortcut_submit_def handleGenerate_blank)

theorem submit_noop_when_blank_or_in_flight_witness:
  "trim (prompt (draft '' '' [''a.png''])) = [] \<and>
   click_submit demo_env (draft '' '' [''a.png'']) = draft '' '' [''a.png''] \<and>
   shortcut_submit demo_props demo_env (draft '' '' [''a.png'']) = draft '' '' [''a.png''] \<and>
   handleGenerate demo_env (draft '' '' [''a.png'']) = draft '' '' [''a.png''] \<and>
   isGenerating ((draft ''A dragon lands'' [''a.png''])\<lparr>isGenerating := True\<rparr>) \<and>
   click_submit demo_env ((draft ''A dragon lands'' [''a.png''])\<lparr>isGenerating := True\<rparr>)
     = (draft ''A dragon lands'' [''a.png''])\<lparr>isGenerating := True\<rparr> \<and>
   shortcut_submit demo_props demo_env ((draft ''A dragon lands'' [''a.png''])\<lparr>isGenerating := True\<rparr>)
     = (draft ''A dragon lands'' [''a.png''])\<lparr>isGenerating := True\<rparr>"
  using submit_noop_when_blank_or_in_flight [of "draft '' '' [''a.png'']" demo_env demo_props]
        submit_noop_when_blank_or_in_flight [of "(draft ''A dragon lands'' [''a.png''])\<lparr>isGenerating := True\<rparr>" demo_env demo_props]
  by (simp add: draft_def initial_modal_def trim_def is_js_whitespace_def)

text \<open>
  C9. When an upload is rejected, or every upload yields a URL and the handler is
  rejected, the attachments, the previews and the prompt are after
  \<^verbatim>\<open>handleGenerate\<close> what they were before.
\<close>

theorem failed_submit_keeps_attachments:
  assumes "(\<exists>f \<in> set (uploadedFiles s). \<exists>t e. uploadToS3 env f = Rejected t e) \<or>
           ((\<forall>f \<in> set (uploadedFiles s). \<exists>t. uploadToS3 env f = Fulfilled t \<lparr>url = u f\<rparr>) \<and>
            (\<exists>t e. onGenerate env
               (Generate_data (prompt s)
                  (if uploadedFiles s = [] then None else Some (map u (uploadedFiles s))))
             = Rejected t e))"
  shows "uploadedFiles (handleGenerate env s) = uploadedFiles s \<and>
         previews (handleGenerate env s) = previews s \<and>
         prompt (handleGenerate env s) = prompt s"
  by (rule handleGenerate_frame)

theorem failed_submit_keeps_attachments_witness:
  "uploadToS3 demo_env ''b.png'' = Rejected 2 (Error_instance ''Upload failed'') \<and>
   uploadedFiles (handleGenerate demo_env (draft ''A dragon lands'' [''a.png'', ''b.png'']))
     = [''a.png'', ''b.png''] \<and>
   previews (handleGenerate demo_env (draft ''A dragon lands'' [''a.png'', ''b.png'']))
     = [''data:a.png'', ''data:b.png''] \<and>
   onGenerate demo_env (Generate_data ''fail'' (Some [''https://bucket/a.png'']))
     = Rejected 9 (Error_instance ''No credits'') \<and>
   uploadedFiles (handleGenerate demo_env (draft ''fail'' [''a.png''])) = [''a.png''] \<and>
   previews (handleGenerate demo_env (draft ''fail'' [''a.png''])) = [''data:a.png'']"
  using failed_submit_keeps_attachments [of "draft ''A dragon lands'' [''a.png'', ''b.png'']" demo_env "\<lambda>f. ''https://bucket/'' @ f"]
        failed_submit_keeps_attachments [of "draft ''fail'' [''a.png'']" demo_env "\<lambda>f. ''https://bucket/'' @ f"]
  by (simp add: draft_def initial_modal_def demo_env_def)

section \<open>Previews and attachments\<close>

lemma previews_arrive:
  assumes "\<forall>f. preview_of env f \<noteq> None"
  shows "handleFiles_resume env fs s = s\<lparr>previews := map (\<lambda>f. the (preview_of env f)) fs\<rparr>"
proof -
  have "\<forall>p \<in> set (map (generateFilePreview env) fs). settled_value p \<noteq> None"
    using assms by (simp add: preview_of_def)
  from promise_all_fulfilled [OF this] obtain t where
    "promise_all (map (generateFilePreview env) fs)
       = Fulfilled t (map (\<lambda>p. the (settled_value p)) (map (generateFilePreview env) fs))" ..
  then show ?thesis
    by (simp add: handleFiles_resume_def preview_of_def o_def)
qed

lemma handleFiles_in_step:
  assumes "\<forall>f. preview_of env f \<noteq> None" and "previews_in_step env s"
  shows "previews_in_step env (handleFiles env newFiles s)"
proof (cases newFiles)
  case None
  then show ?thesis using assms(2) by (simp add: handleFiles_def handleFiles_sync_def)
next
  case (Some fs)
  show ?thesis
    using assms Some
    by (simp add: handleFiles_def handleFiles_sync_def Let_def previews_arrive previews_in_step_def)
qed

lemma removeFile_in_step:
  assumes "previews_in_step env s"
  shows "previews_in_step env (removeFile index s)"
proof -
  have "map (preview_of env) (filter_index index (uploadedFiles s))
          = filter_index index (map (preview_of env) (uploadedFiles s))"
    by (simp only: filter_index_map)
  also have "\<dots> = filter_index index (map Some (previews s))"
    using assms by (simp only: previews_in_step_def)
  also have "\<dots> = map Some (filter_index index (previews s))"
    by (simp only: filter_index_map)
  finally show ?thesis
    by (simp add: previews_in_step_def removeFile_def Let_def)
qed

lemma handleGenerate_in_step:
  "previews_in_step env (handleGenerate env s) = previews_in_step env s"
  by (simp add: previews_in_step_def handleGenerate_frame)

lemma perform_in_step:
  assumes "\<forall>f. preview_of env f \<noteq> None" and "previews_in_step env s"
  shows "previews_in_step env (perform env p a s)"
proof (cases a)
  case (Add_files newFiles)
  then show ?thesis using assms by (simp add: handleFiles_in_step)
next
  case (Remove_file index)
  then show ?thesis using assms by (simp add: removeFile_in_step)
next
  case (Set_prompt v)
  then show ?thesis using assms by (simp add: previews_in_step_def)
next
  case Submit
  then show ?thesis using assms by (simp add: handleGenerate_in_step)
next
  case Open_composer
  then show ?thesis using assms by (simp add: previews_in_step_def reset_on_open_def)
qed

lemma run_in_step:
  assumes "\<forall>f. preview_of env f \<noteq> None" and "previews_in_step env s"
  shows "previews_in_step env (run env p acts s)"
  using assms(2)
proof (induction acts arbitrary: s)
  case Nil
  then show ?case by simp
next
  case (Cons a acts)
  then show ?case using assms(1) by (simp add: perform_in_step)
qed

text \<open>
  C6 as stated fails. While the first call waits, there is an attachment and no preview.
  The first call's previews, arriving last, replace those of the newer list of two
  attachments by one preview. And previews that arrive after a removal show
  \<^verbatim>\<open>a.png\<close> at index 0, where the attachment is \<^verbatim>\<open>b.png\<close>.
\<close>

theorem previews_stale:
  "uploadedFiles first_selected = [''a.png''] \<and> previews first_selected = [] \<and>
   uploadedFiles overlapped = [''a.png'', ''b.png''] \<and> previews overlapped = [''data:a.png''] \<and>
   uploadedFiles removed_meanwhile = [''b.png''] \<and>
   previews removed_meanwhile = [''data:a.png'', ''data:b.png''] \<and>
   preview_of demo_env ''b.png'' = Some ''data:b.png'' \<and>
   \<not> previews_in_step slow_env first_selected \<and>
   \<not> previews_in_step demo_env overlapped \<and>
   \<not> previews_in_step demo_env removed_meanwhile"
  by (simp add: previews_in_step_def first_selected_def overlapped_def removed_meanwhile_def handleFiles_def
      handleFiles_sync_def handleFiles_resume_def removeFile_def filter_index_def promise_all_def
      preview_of_def slow_env_def demo_env_def initial_modal_def invalid_file_toast_def Let_def)

text \<open>
  C6, as the code has it. Let every preview computation succeed, and let every operation
  run to its end before the next one starts (an add-files call gets its previews before
  anything else happens). If the previews are in step with the attachments at the start,
  they are in step after every operation of the run, and the two lists are equally long.
\<close>

theorem previews_in_step_between_operations:
  assumes "\<forall>f. preview_of env f \<noteq> None" and "previews_in_step env s"
  shows "previews_in_step env (run env p (take n acts) s) \<and>
         length (previews (run env p (take n acts) s))
           = length (uploadedFiles (run env p (take n acts) s))"
proof -
  have "previews_in_step env (run env p (take n acts) s)"
    using assms by (rule run_in_step)
  moreover from this have "length (map (preview_of env) (uploadedFiles (run env p (take n acts) s)))
      = length (map Some (previews (run env p (take n acts) s)))"
    by (simp only: previews_in_step_def)
  ultimately show ?thesis by simp
qed

theorem previews_in_step_between_operations_witness:
  "(\<forall>f. preview_of demo_env f \<noteq> None) \<and>
   previews_in_step demo_env (initial_modal :: string modal) \<and>
   previews_in_step demo_env
     (run demo_env demo_props
        (take 3 [Add_files (Some [''a.png'', ''big.png'']), Add_files (Some [''b.png'', ''c.png'']),
                 Remove_file 0, Set_prompt ''x'', Submit])
        initial_modal)"
  using previews_in_step_between_operations [of demo_env initial_modal demo_props 3
      "[Add_files (Some [''a.png'', ''big.png'']), Add_files (Some [''b.png'', ''c.png'']),
        Remove_file 0, Set_prompt ''x'', Submit]"]
  by (simp add: previews_in_step_def preview_of_def demo_env_def initial_modal_def)

section \<open>The rate limit\<close>

text \<open>
  C8. The limiter is a fixed-window limiter with a quota of 3 and a window of seven days,
  in milliseconds.
\<close>

theorem free_tier_limit_three_per_week:
  "is_fixed_window (limiter freeTierRateLimit) \<and>
   quota (limiter freeTierRateLimit) = 3 \<and>
   window_ms (limiter freeTierRateLimit) = Some (7 * 24 * 60 * 60 * 1000)"
  by (simp add: freeTierRateLimit_def ms_def is_digit_def is_js_whitespace_def decimal_def
      unit_ms_def)

end
